theory Spec2Isabelle
  imports Complex_Main
begin

section \<open>Arrival times from rate processes (fpp\_sle.fpp.get\_arrival\_times)\<close>

text \<open>
  A shallow embedding of \<^verbatim>\<open>src/fpp_sle/fpp/get_arrival_times.py\<close>.

  Conventions of the embedding:
  \<^item> numpy arrays are one-dimensional and are lists of reals; floating point numbers are
    idealised as reals (no rounding, no NaN, no infinities);
  \<^item> a Python exception is a value of type \<open>error\<close>; a function that can raise returns
    \<open>error + 'a\<close> with \<open>Inl\<close> for the exception;
  \<^item> the shared generator behind \<^verbatim>\<open>np.random\<close> is an explicit state that every
    drawing function takes and returns;
  \<^item> the \<^verbatim>\<open>while\<close> loop is a partial function into \<open>option\<close>: \<open>None\<close> means that
    the loop runs forever;
  \<^item> a rate callable is a pure, total function from an array of times to an array of
    rates, with its keyword arguments already bound.
\<close>

subsection \<open>Python values and exceptions\<close>

datatype pyval =
    NdArray "real list"
  | Callable "real list \<Rightarrow> real list"
  | PyInt int
  | PyBool bool
  | PyFloat real
  | PyNone

datatype error =
    TypeError string
  | ValueError string
  | IndexError
  | ZeroDivisionError
  | NotImplementedError

text \<open>\<^verbatim>\<open>isinstance(v, np.ndarray)\<close>, \<^verbatim>\<open>callable(v)\<close> and \<^verbatim>\<open>isinstance(v, int)\<close>. In Python
  \<^verbatim>\<open>bool\<close> is a subclass of \<^verbatim>\<open>int\<close>, so a boolean passes the last test.\<close>

fun is_ndarray :: "pyval \<Rightarrow> bool" where
  "is_ndarray (NdArray _) = True"
| "is_ndarray _ = False"

fun is_callable :: "pyval \<Rightarrow> bool" where
  "is_callable (Callable _) = True"
| "is_callable _ = False"

fun is_int :: "pyval \<Rightarrow> bool" where
  "is_int (PyInt _) = True"
| "is_int (PyBool _) = True"
| "is_int _ = False"

fun array_of :: "pyval \<Rightarrow> real list" where
  "array_of (NdArray xs) = xs"
| "array_of _ = []"

fun int_of :: "pyval \<Rightarrow> int" where
  "int_of (PyInt n) = n"
| "int_of (PyBool b) = (if b then 1 else 0)"
| "int_of _ = 0"

subsection \<open>The argument check \<^verbatim>\<open>check_types\<close>\<close>

definition msg_rate_type :: string where
  "msg_rate_type = ''First argument must be a numpy array or a callable (rate)''"

definition msg_rate_negative :: string where
  "msg_rate_negative = ''The rate process must be non-negative''"

definition msg_times_type :: string where
  "msg_times_type = ''Second argument must be a numpy array (times)''"

definition msg_total_pulses_type :: string where
  "msg_total_pulses_type = ''Third argument must be an int (total_pulses)''"

text \<open>\<^verbatim>\<open>any(args[0] < 0)\<close>\<close>

definition any_negative :: "real list \<Rightarrow> bool" where
  "any_negative xs = list_ex (\<lambda>x. x < 0) xs"

text \<open>The wrapper looks at the first three positional arguments, in this order, and
  raises at the first test that fails; \<open>None\<close> means that the decorated function is
  called. Calls with fewer than three positional arguments are not modelled.\<close>

definition check_types :: "pyval \<Rightarrow> pyval \<Rightarrow> pyval \<Rightarrow> error option" where
  "check_types a0 a1 a2 =
     (if \<not> is_ndarray a0 \<and> \<not> is_callable a0 then Some (TypeError msg_rate_type)
      else if is_ndarray a0 \<and> any_negative (array_of a0) then Some (ValueError msg_rate_negative)
      else if \<not> is_ndarray a1 then Some (TypeError msg_times_type)
      else if \<not> is_int a2 then Some (TypeError msg_total_pulses_type)
      else None)"

subsection \<open>\<^verbatim>\<open>from_cox_process\<close>\<close>

text \<open>Declared as \<^verbatim>\<open>from_cox_process(rate, same_shape, times, mu)\<close> under
  \<^verbatim>\<open>@check_types\<close>: the wrapper checks the first three positional arguments before the
  body, which only raises \<^verbatim>\<open>NotImplementedError\<close>, is reached.\<close>

definition from_cox_process ::
  "pyval \<Rightarrow> pyval \<Rightarrow> pyval \<Rightarrow> pyval \<Rightarrow> error + (real list \<times> real)" where
  "from_cox_process rate same_shape ts mu =
     (case check_types rate same_shape ts of
        Some e \<Rightarrow> Inl e
      | None \<Rightarrow> Inl NotImplementedError)"

subsection \<open>The random generator\<close>

text \<open>The state of \<^verbatim>\<open>np.random\<close>: the sequence of raw outputs of the generator and the
  number of outputs consumed so far. \<^verbatim>\<open>np.random.uniform(size=n)\<close> consumes \<open>n\<close> outputs
  and returns \<open>n\<close> numbers of the interval \<open>[0, 1)\<close> with 53 random bits each;
  \<^verbatim>\<open>np.random.choice(a, size=k)\<close> consumes \<open>k\<close> outputs and returns \<open>k\<close> elements of \<open>a\<close>,
  with replacement.\<close>

record rng =
  raw :: "nat \<Rightarrow> nat"
  pos :: nat

definition next_raw :: "nat \<Rightarrow> rng \<Rightarrow> nat list \<times> rng" where
  "next_raw n g = (map (raw g) [pos g ..< pos g + n], g\<lparr>pos := pos g + n\<rparr>)"

definition unit_of_raw :: "nat \<Rightarrow> real" where
  "unit_of_raw w = real (w mod 2 ^ 53) / 2 ^ 53"

definition uniform :: "nat \<Rightarrow> rng \<Rightarrow> real list \<times> rng" where
  "uniform n g = (case next_raw n g of (ws, g') \<Rightarrow> (map unit_of_raw ws, g'))"

definition msg_choice_negative :: string where
  "msg_choice_negative = ''negative dimensions are not allowed''"

definition msg_choice_empty :: string where
  "msg_choice_empty = ''a cannot be empty unless no samples are taken''"

definition choice :: "real list \<Rightarrow> int \<Rightarrow> rng \<Rightarrow> (error + real list) \<times> rng" where
  "choice a sz g =
     (if sz < 0 then (Inl (ValueError msg_choice_negative), g)
      else if a = [] \<and> 0 < sz then (Inl (ValueError msg_choice_empty), g)
      else (case next_raw (nat sz) g of
              (ws, g') \<Rightarrow> (Inr (map (\<lambda>w. a ! (w mod length a)) ws), g')))"

subsection \<open>Array operations\<close>

definition msg_broadcast :: string where
  "msg_broadcast = ''operands could not be broadcast together''"

text \<open>An elementwise binary operation on two arrays, with numpy's broadcasting: equal
  lengths, or one operand of length one (which also stands for a scalar).\<close>

definition broadcast2 :: "('a \<Rightarrow> 'b \<Rightarrow> 'c) \<Rightarrow> 'a list \<Rightarrow> 'b list \<Rightarrow> error + 'c list" where
  "broadcast2 f xs ys =
     (if length xs = length ys then Inr (map2 f xs ys)
      else if length xs = 1 then Inr (map (f (hd xs)) ys)
      else if length ys = 1 then Inr (map (\<lambda>x. f x (hd ys)) xs)
      else Inl (ValueError msg_broadcast))"

text \<open>\<^verbatim>\<open>times[mask]\<close> with a boolean mask, which must be as long as \<^verbatim>\<open>times\<close>.\<close>

definition bool_index :: "'a list \<Rightarrow> bool list \<Rightarrow> error + 'a list" where
  "bool_index xs msk =
     (if length msk \<noteq> length xs then Inl IndexError
      else Inr (map fst (filter snd (zip xs msk))))"

text \<open>\<^verbatim>\<open>a.reshape((n, m))\<close> of an array of \<open>n * m\<close> elements: \<open>n\<close> rows of \<open>m\<close> consecutive
  elements.\<close>

definition reshape :: "'a list \<Rightarrow> nat \<Rightarrow> nat \<Rightarrow> 'a list list" where
  "reshape xs n m = map (\<lambda>i. take m (drop (i * m) xs)) [0 ..< n]"

subsection \<open>\<^verbatim>\<open>from_inhomogeneous_poisson_process\<close>\<close>

text \<open>The alignment of an array rate with the time axis (\<^verbatim>\<open>same_shape\<close> false); \<open>n\<close> is
  \<^verbatim>\<open>len(times)\<close>. The division \<^verbatim>\<open>len(rate) / len(times)\<close> raises on an empty time axis;
  otherwise \<^verbatim>\<open>int(len(rate) / len(times))\<close> is the integer quotient of the two lengths.\<close>

definition align_rate :: "real list \<Rightarrow> nat \<Rightarrow> error + real list" where
  "align_rate rate n =
     (if n = 0 then Inl ZeroDivisionError
      else
        let new_length = length rate div n;
            nearest_multiple = n * new_length;
            reshaped = reshape (take nearest_multiple rate) n new_length
        in Inr (map sum_list reshaped))"

text \<open>One round of the loop, in the order of the source: \<^verbatim>\<open>delta\<close>, \<^verbatim>\<open>avg_rate\<close>,
  \<^verbatim>\<open>avg_prob\<close>, the uniform draws, the mask, and the selected times.\<close>

definition get_delta :: "real list \<Rightarrow> error + real" where
  "get_delta ts = (if length ts < 2 then Inl IndexError else Inr (ts ! 1 - ts ! 0))"

definition avg_rate :: "pyval \<Rightarrow> real list \<Rightarrow> real \<Rightarrow> error + real list" where
  "avg_rate rate ts delta =
     (case rate of
        NdArray r \<Rightarrow> Inr r
      | Callable f \<Rightarrow>
          (case broadcast2 (+) (f ts) (f (map (\<lambda>t. t + delta) ts)) of
             Inl e \<Rightarrow> Inl e
           | Inr s \<Rightarrow> Inr (map (\<lambda>x. x / 2) s))
      | _ \<Rightarrow> Inl (TypeError ''object is not callable''))"

definition avg_prob :: "real list \<Rightarrow> real \<Rightarrow> real list" where
  "avg_prob avg delta = map (\<lambda>a. 1 - exp (- a * delta)) avg"

definition loop_round :: "pyval \<Rightarrow> real list \<Rightarrow> rng \<Rightarrow> (error + real list) \<times> rng" where
  "loop_round rate ts g =
     (case get_delta ts of
        Inl e \<Rightarrow> (Inl e, g)
      | Inr delta \<Rightarrow>
          (case avg_rate rate ts delta of
             Inl e \<Rightarrow> (Inl e, g)
           | Inr avg \<Rightarrow>
               (case uniform (length ts) g of
                  (rand_throws, g') \<Rightarrow>
                    (case broadcast2 (<) rand_throws (avg_prob avg delta) of
                       Inl e \<Rightarrow> (Inl e, g')
                     | Inr msk \<Rightarrow> (bool_index ts msk, g')))))"

text \<open>The loop \<^verbatim>\<open>while len(arrival_times) < total_pulses\<close>.\<close>

partial_function (option) accumulate ::
  "pyval \<Rightarrow> real list \<Rightarrow> int \<Rightarrow> real list \<Rightarrow> rng \<Rightarrow> ((error + real list) \<times> rng) option" where
  "accumulate rate ts total_pulses arrival_times g =
     (if int (length arrival_times) < total_pulses then
        (case loop_round rate ts g of
           (Inl e, g') \<Rightarrow> Some (Inl e, g')
         | (Inr accepted, g') \<Rightarrow>
             accumulate rate ts total_pulses (arrival_times @ accepted) g')
      else Some (Inr arrival_times, g))"

text \<open>After the loop: the draw with replacement and the sort.\<close>

definition downsample :: "real list \<Rightarrow> int \<Rightarrow> rng \<Rightarrow> (error + real list) \<times> rng" where
  "downsample arrival_times total_pulses g =
     (case choice arrival_times total_pulses g of
        (Inl e, g') \<Rightarrow> (Inl e, g')
      | (Inr xs, g') \<Rightarrow> (Inr (sort xs), g'))"

definition sample ::
  "pyval \<Rightarrow> real list \<Rightarrow> int \<Rightarrow> rng \<Rightarrow> ((error + real list) \<times> rng) option" where
  "sample rate ts total_pulses g =
     (case accumulate rate ts total_pulses [] g of
        None \<Rightarrow> None
      | Some (Inl e, g') \<Rightarrow> Some (Inl e, g')
      | Some (Inr arrival_times, g') \<Rightarrow> Some (downsample arrival_times total_pulses g'))"

text \<open>The body of the function, entered once \<^verbatim>\<open>check_types\<close> has passed.\<close>

definition ipp_body ::
  "pyval \<Rightarrow> real list \<Rightarrow> int \<Rightarrow> bool \<Rightarrow> rng \<Rightarrow> ((error + real list) \<times> rng) option" where
  "ipp_body rate ts total_pulses same_shape g =
     (case rate of
        NdArray r \<Rightarrow>
          (if \<not> same_shape then
             (case align_rate r (length ts) of
                Inl e \<Rightarrow> Some (Inl e, g)
              | Inr r' \<Rightarrow> sample (NdArray r') ts total_pulses g)
           else sample rate ts total_pulses g)
      | _ \<Rightarrow> sample rate ts total_pulses g)"

definition from_inhomogeneous_poisson_process ::
  "pyval \<Rightarrow> pyval \<Rightarrow> pyval \<Rightarrow> bool \<Rightarrow> rng \<Rightarrow> ((error + real list) \<times> rng) option" where
  "from_inhomogeneous_poisson_process rate ts total_pulses same_shape g =
     (case check_types rate ts total_pulses of
        Some e \<Rightarrow> Some (Inl e, g)
      | None \<Rightarrow> ipp_body rate (array_of ts) (int_of total_pulses) same_shape g)"

section \<open>Properties\<close>

subsection \<open>Argument validation\<close>

lemma check_types_negative:
  "\<exists>x\<in>set r. x < 0 \<Longrightarrow> check_types (NdArray r) a1 a2 = Some (ValueError msg_rate_negative)"
  by (auto simp: check_types_def any_negative_def list_ex_iff)

text \<open>
  Claim C4. A rate array with at least one negative element makes
  \<^verbatim>\<open>from_inhomogeneous_poisson_process\<close> raise the negative-rate error of \<^verbatim>\<open>check_types\<close>
  (a \<^verbatim>\<open>ValueError\<close>), whatever the other arguments are, and the state of the random
  generator is the one the call started with: nothing was drawn.
\<close>

theorem negative_rate_raises:
  assumes "\<exists>x\<in>set r. x < 0"
  shows "from_inhomogeneous_poisson_process (NdArray r) ts total_pulses same_shape g
         = Some (Inl (ValueError msg_rate_negative), g)"
  using assms by (simp add: from_inhomogeneous_poisson_process_def check_types_negative)

theorem negative_rate_raises_witness:
  "(\<exists>x\<in>set [1, -2, 3::real]. x < 0) \<and>
   from_inhomogeneous_poisson_process (NdArray [1, -2, 3]) (NdArray [0, 1, 2]) (PyInt 4) True
       \<lparr>raw = (\<lambda>i. i), pos = 0\<rparr>
     = Some (Inl (ValueError msg_rate_negative), \<lparr>raw = (\<lambda>i. i), pos = 0\<rparr>)"
  using negative_rate_raises
    [of "[1, -2, 3]" "NdArray [0, 1, 2]" "PyInt 4" True "\<lparr>raw = (\<lambda>i. i), pos = 0\<rparr>"]
  by simp

subsection \<open>The Cox-process variant\<close>

text \<open>
  Claim C8. Every call of \<^verbatim>\<open>from_cox_process\<close> should raise \<^verbatim>\<open>NotImplementedError\<close>.
  The code does not do so on a call with the arguments of its declared signature
  \<^verbatim>\<open>(rate: np.ndarray, same_shape: bool, times: np.ndarray, mu: float)\<close>: the wrapper
  \<^verbatim>\<open>check_types\<close> reads the second positional argument as \<^verbatim>\<open>times\<close> and rejects the
  boolean with a \<^verbatim>\<open>TypeError\<close>, so the body is never reached. For the rate \<open>[1]\<close>,
  \<^verbatim>\<open>same_shape = True\<close>, the axis \<open>[0, 1]\<close> and \<open>mu = 1\<close> the result is that
  \<^verbatim>\<open>TypeError\<close>; and no call with arguments of the declared types raises
  \<^verbatim>\<open>NotImplementedError\<close>.
\<close>

theorem cox_process_declared_call:
  "from_cox_process (NdArray [1]) (PyBool True) (NdArray [0, 1]) (PyFloat 1)
     = Inl (TypeError msg_times_type)
   \<and> from_cox_process (NdArray r) (PyBool b) (NdArray ts) (PyFloat mu)
     \<noteq> Inl NotImplementedError"
  by (simp add: from_cox_process_def check_types_def any_negative_def)

subsection \<open>What a returning call returns\<close>

lemma bool_index_subset: "bool_index xs msk = Inr ys \<Longrightarrow> set ys \<subseteq> set xs"
proof -
  assume "bool_index xs msk = Inr ys"
  then have "ys = map fst (filter snd (zip xs msk))"
    by (simp add: bool_index_def split: if_splits)
  then have "set ys \<subseteq> fst ` set (zip xs msk)" by auto
  also have "\<dots> \<subseteq> set xs" by (auto dest: set_zip_leftD)
  finally show ?thesis .
qed

lemma loop_round_subset:
  "loop_round rate ts g = (Inr accepted, g') \<Longrightarrow> set accepted \<subseteq> set ts"
  by (auto simp: loop_round_def split: sum.splits prod.splits dest: bool_index_subset)

text \<open>The loop only stops with a pool of at least \<open>total_pulses\<close> candidates, all of them
  taken from the time axis (or already in the pool when the loop was entered).\<close>

lemma accumulate_pool:
  assumes "accumulate rate ts total_pulses arrival_times g = Some y"
  shows "\<forall>pool g'. y = (Inr pool, g') \<longrightarrow>
           total_pulses \<le> int (length pool) \<and> set pool \<subseteq> set arrival_times \<union> set ts"
  using assms
proof (induction rate ts total_pulses arrival_times g y
    rule: accumulate.raw_induct [rotated 1, consumes 1])
  case (1 accumulate rate ts total_pulses arrival_times g y)
  show ?case
  proof (cases "int (length arrival_times) < total_pulses")
    case False
    with 1(2) show ?thesis by auto
  next
    case True
    obtain res g1 where r: "loop_round rate ts g = (res, g1)"
      by (cases "loop_round rate ts g")
    show ?thesis
    proof (cases res)
      case (Inl e)
      with 1(2) True r show ?thesis by auto
    next
      case (Inr accepted)
      with 1(2) True r
      have "accumulate rate ts total_pulses (arrival_times @ accepted) g1 = Some y" by simp
      from 1(1)[OF this] loop_round_subset[OF r[unfolded Inr]] show ?thesis by auto
    qed
  qed
qed

lemma choice_result:
  assumes "choice a sz g = (Inr xs, g')"
  shows "int (length xs) = sz \<and> set xs \<subseteq> set a"
proof (cases "a = []")
  case True
  with assms show ?thesis
    by (auto simp: choice_def next_raw_def split: if_splits)
next
  case False
  then have "\<And>w. a ! (w mod length a) \<in> set a" by simp
  with assms False show ?thesis
    by (auto simp: choice_def next_raw_def split: if_splits)
qed

lemma downsample_result:
  assumes "downsample a sz g = (Inr xs, g')"
  shows "int (length xs) = sz \<and> set xs \<subseteq> set a \<and> sorted xs"
proof -
  from assms obtain ys where c: "choice a sz g = (Inr ys, g')" and xs: "xs = sort ys"
    by (auto simp: downsample_def split: prod.splits sum.splits)
  from choice_result[OF c] xs show ?thesis by simp
qed

lemma sample_result:
  assumes "sample rate ts total_pulses g = Some (Inr xs, g')"
  shows "int (length xs) = total_pulses \<and> set xs \<subseteq> set ts \<and> sorted xs"
proof -
  from assms obtain pool g1
    where a: "accumulate rate ts total_pulses [] g = Some (Inr pool, g1)"
      and d: "downsample pool total_pulses g1 = (Inr xs, g')"
    by (auto simp: sample_def split: option.splits prod.splits sum.splits)
  from accumulate_pool[OF a] have "set pool \<subseteq> set ts" by simp
  with downsample_result[OF d] show ?thesis by auto
qed

lemma ipp_body_result:
  assumes "ipp_body rate ts total_pulses same_shape g = Some (Inr xs, g')"
  shows "int (length xs) = total_pulses \<and> set xs \<subseteq> set ts \<and> sorted xs"
  using assms
  by (auto simp: ipp_body_def split: pyval.splits if_splits sum.splits dest: sample_result)

lemma ipp_result:
  assumes "from_inhomogeneous_poisson_process rate ts total_pulses same_shape g
           = Some (Inr xs, g')"
  shows "int (length xs) = int_of total_pulses \<and> set xs \<subseteq> set (array_of ts) \<and> sorted xs"
  using assms
  by (auto simp: from_inhomogeneous_poisson_process_def split: option.splits
      dest: ipp_body_result)

text \<open>A run of two rounds: a constant rate of 5 on the axis \<open>[0, 1, 2]\<close>, four pulses, and
  a generator whose uniform draws are all 0 (each raw output is a multiple of \<open>2 ^ 53\<close>).
  Every step is accepted in both rounds; the draw with replacement picks the positions
  0, 2, 4, 0 of the pool.\<close>

lemma example_round_0:
  "loop_round (NdArray [5, 5, 5]) [0, 1, 2] \<lparr>raw = (\<lambda>i. 9007199254740992 * i), pos = 0\<rparr>
     = (Inr [0, 1, 2], \<lparr>raw = (\<lambda>i. 9007199254740992 * i), pos = 3\<rparr>)"
  by (simp add: loop_round_def get_delta_def avg_rate_def avg_prob_def uniform_def next_raw_def
      unit_of_raw_def broadcast2_def bool_index_def upt_rec)

lemma example_round_3:
  "loop_round (NdArray [5, 5, 5]) [0, 1, 2] \<lparr>raw = (\<lambda>i. 9007199254740992 * i), pos = 3\<rparr>
     = (Inr [0, 1, 2], \<lparr>raw = (\<lambda>i. 9007199254740992 * i), pos = 6\<rparr>)"
  by (simp add: loop_round_def get_delta_def avg_rate_def avg_prob_def uniform_def next_raw_def
      unit_of_raw_def broadcast2_def bool_index_def upt_rec)

lemma example_accumulate:
  "accumulate (NdArray [5, 5, 5]) [0, 1, 2] 4 [] \<lparr>raw = (\<lambda>i. 9007199254740992 * i), pos = 0\<rparr>
     = Some (Inr [0, 1, 2, 0, 1, 2], \<lparr>raw = (\<lambda>i. 9007199254740992 * i), pos = 6\<rparr>)"
  apply (subst accumulate.simps)
  apply (simp add: example_round_0)
  apply (subst accumulate.simps)
  apply (simp add: example_round_3)
  apply (subst accumulate.simps)
  apply simp
  done

lemma example_choice:
  "choice [0, 1, 2, 0, 1, 2] 4 \<lparr>raw = (\<lambda>i. 9007199254740992 * i), pos = 6\<rparr>
     = (Inr [0, 2, 1, 0], \<lparr>raw = (\<lambda>i. 9007199254740992 * i), pos = 10\<rparr>)"
  by (simp add: choice_def next_raw_def upt_rec)

lemma example_run:
  "from_inhomogeneous_poisson_process (NdArray [5, 5, 5]) (NdArray [0, 1, 2]) (PyInt 4) True
      \<lparr>raw = (\<lambda>i. 9007199254740992 * i), pos = 0\<rparr>
     = Some (Inr [0, 0, 1, 2], \<lparr>raw = (\<lambda>i. 9007199254740992 * i), pos = 10\<rparr>)"
  by (simp add: from_inhomogeneous_poisson_process_def check_types_def any_negative_def
      ipp_body_def sample_def example_accumulate downsample_def example_choice)

text \<open>
  Claim C1. Whenever \<^verbatim>\<open>from_inhomogeneous_poisson_process\<close> returns a sequence for a rate
  (array or callable), a time axis and an integer \<open>total_pulses\<close>, the sequence has exactly
  \<open>total_pulses\<close> elements. (The call need not return: the loop can run forever, and the
  arguments can be rejected.)
\<close>

theorem returned_length:
  assumes "from_inhomogeneous_poisson_process rate (NdArray ts) (PyInt n) same_shape g
           = Some (Inr xs, g')"
  shows "int (length xs) = n"
  using ipp_result[OF assms] by simp

theorem returned_length_witness:
  "from_inhomogeneous_poisson_process (NdArray [5, 5, 5]) (NdArray [0, 1, 2]) (PyInt 4) True
      \<lparr>raw = (\<lambda>i. 9007199254740992 * i), pos = 0\<rparr>
     = Some (Inr [0, 0, 1, 2], \<lparr>raw = (\<lambda>i. 9007199254740992 * i), pos = 10\<rparr>)
   \<and> int (length [0, 0, 1, 2 :: real]) = 4"
  using returned_length[OF example_run] example_run by simp

text \<open>
  Claim C6. Whenever \<^verbatim>\<open>from_inhomogeneous_poisson_process\<close> returns a sequence, the
  sequence is sorted in ascending order.
\<close>

theorem returned_sorted:
  assumes "from_inhomogeneous_poisson_process rate ts total_pulses same_shape g
           = Some (Inr xs, g')"
  shows "sorted xs \<and> (\<forall>i. Suc i < length xs \<longrightarrow> xs ! i \<le> xs ! Suc i)"
proof -
  from ipp_result[OF assms] have s: "sorted xs" by simp
  then have "\<forall>i. Suc i < length xs \<longrightarrow> xs ! i \<le> xs ! Suc i"
    by (simp add: sorted_iff_nth_Suc)
  with s show ?thesis by simp
qed

theorem returned_sorted_witness:
  "from_inhomogeneous_poisson_process (NdArray [5, 5, 5]) (NdArray [0, 1, 2]) (PyInt 4) True
      \<lparr>raw = (\<lambda>i. 9007199254740992 * i), pos = 0\<rparr>
     = Some (Inr [0, 0, 1, 2], \<lparr>raw = (\<lambda>i. 9007199254740992 * i), pos = 10\<rparr>)
   \<and> sorted [0, 0, 1, 2 :: real]"
  using returned_sorted[OF example_run] example_run by blast

text \<open>
  Claim C7. With an array rate, every value of a returned sequence is an element of the
  time axis.
\<close>

theorem returned_members_of_times:
  assumes "from_inhomogeneous_poisson_process (NdArray r) (NdArray ts) total_pulses same_shape g
           = Some (Inr xs, g')"
  shows "set xs \<subseteq> set ts"
  using ipp_result[OF assms] by simp

theorem returned_members_of_times_witness:
  "from_inhomogeneous_poisson_process (NdArray [5, 5, 5]) (NdArray [0, 1, 2]) (PyInt 4) True
      \<lparr>raw = (\<lambda>i. 9007199254740992 * i), pos = 0\<rparr>
     = Some (Inr [0, 0, 1, 2], \<lparr>raw = (\<lambda>i. 9007199254740992 * i), pos = 10\<rparr>)
   \<and> set [0, 0, 1, 2 :: real] \<subseteq> set [0, 1, 2]"
  using returned_members_of_times[OF example_run] example_run by blast

subsection \<open>The rate alignment\<close>








subsection \<open>One round of the loop\<close>

lemma bool_index_nth:
  assumes "length msk = length xs"
  shows "bool_index xs msk = Inr (map (\<lambda>i. xs ! i) (filter (\<lambda>i. msk ! i) [0..<length xs]))"
proof -
  have z: "zip xs msk = map (\<lambda>i. (xs ! i, msk ! i)) [0..<length xs]"
    using assms by (auto intro!: nth_equalityI)
  have "map fst (filter snd (zip xs msk))
        = map (\<lambda>i. xs ! i) (filter (\<lambda>i. msk ! i) [0..<length xs])"
    unfolding z by (simp add: filter_map comp_def)
  with assms show ?thesis by (simp add: bool_index_def)
qed

lemma length_uniform: "length (fst (uniform n g)) = n"
  by (simp add: uniform_def next_raw_def)

lemma uniform_nonneg: "u \<in> set (fst (uniform n g)) \<Longrightarrow> 0 \<le> u \<and> u < 1"
proof -
  have "\<And>w. real (w mod 2 ^ 53) / 2 ^ 53 < 1"
  proof -
    fix w :: nat
    have "w mod 2 ^ 53 < 2 ^ 53" by simp
    then have "real (w mod 2 ^ 53) < 2 ^ 53"
      by (metis of_nat_less_iff of_nat_numeral of_nat_power)
    then show "real (w mod 2 ^ 53) / 2 ^ 53 < 1" by simp
  qed
  moreover assume "u \<in> set (fst (uniform n g))"
  ultimately show ?thesis
    by (auto simp: uniform_def next_raw_def unit_of_raw_def)
qed

lemma loop_round_mask:
  assumes len: "2 \<le> length ts"
    and avg: "avg_rate rate ts (ts ! 1 - ts ! 0) = Inr a"
    and la: "length a = length ts"
  shows "loop_round rate ts g =
    (Inr (map (\<lambda>i. ts ! i)
            (filter (\<lambda>i. fst (uniform (length ts) g) ! i < 1 - exp (- (a ! i) * (ts ! 1 - ts ! 0)))
               [0..<length ts])),
     snd (uniform (length ts) g))"
proof -
  let ?u = "fst (uniform (length ts) g)"
  let ?d = "ts ! 1 - ts ! 0"
  let ?msk = "map2 (<) ?u (avg_prob a ?d)"
  have lu: "length ?u = length ts" by (rule length_uniform)
  have lm: "length ?msk = length ts" using lu la by (simp add: avg_prob_def)
  have b: "broadcast2 (<) ?u (avg_prob a ?d) = Inr ?msk"
    using lu la by (simp add: broadcast2_def avg_prob_def)
  have m: "\<And>i. i < length ts \<Longrightarrow> ?msk ! i = (?u ! i < 1 - exp (- (a ! i) * ?d))"
    using lu la by (simp add: avg_prob_def)
  have "filter (\<lambda>i. ?msk ! i) [0..<length ts]
        = filter (\<lambda>i. ?u ! i < 1 - exp (- (a ! i) * ?d)) [0..<length ts]"
  proof (rule filter_cong[OF refl])
    fix i assume "i \<in> set [0..<length ts]"
    then have "i < length ts" by simp
    from m[OF this] show "?msk ! i = (?u ! i < 1 - exp (- (a ! i) * ?d))" .
  qed
  with bool_index_nth[OF lm]
  have bi: "bool_index ts ?msk = Inr (map (\<lambda>i. ts ! i)
       (filter (\<lambda>i. ?u ! i < 1 - exp (- (a ! i) * ?d)) [0..<length ts]))"
    by simp
  obtain us g1 where u: "uniform (length ts) g = (us, g1)" by (cases "uniform (length ts) g")
  from len avg b bi u show ?thesis
    by (simp add: loop_round_def get_delta_def)
qed

lemma avg_rate_array: "avg_rate (NdArray r) ts d = Inr r"
  by (simp add: avg_rate_def)



lemma loop_round_none_accepted:
  assumes len: "2 \<le> length ts"
    and avg: "avg_rate rate ts (ts ! 1 - ts ! 0) = Inr a"
    and la: "length a = length ts"
    and np: "\<forall>i<length ts. 0 \<le> - (a ! i) * (ts ! 1 - ts ! 0)"
  shows "loop_round rate ts g = (Inr [], snd (uniform (length ts) g))"
proof -
  let ?u = "fst (uniform (length ts) g)"
  let ?d = "ts ! 1 - ts ! 0"
  have "filter (\<lambda>i. ?u ! i < 1 - exp (- (a ! i) * ?d)) [0..<length ts] = []"
  proof -
    have "\<not> (?u ! i < 1 - exp (- (a ! i) * ?d))" if i: "i < length ts" for i
    proof -
      from i have "?u ! i \<in> set ?u" by (simp add: length_uniform)
      then have u0: "0 \<le> ?u ! i" by (rule uniform_nonneg[THEN conjunct1])
      from np i have "0 \<le> - (a ! i) * ?d" by blast
      then have "1 \<le> exp (- (a ! i) * ?d)" by (simp only: one_le_exp_iff)
      with u0 show ?thesis by linarith
    qed
    then show ?thesis by (simp add: filter_empty_conv)
  qed
  with loop_round_mask[OF len avg la, of g] show ?thesis by simp
qed

lemma accumulate_diverges:
  assumes stuck: "\<forall>g. \<exists>g'. loop_round rate ts g = (Inr [], g')"
    and short: "int (length arrival_times) < total_pulses"
  shows "accumulate rate ts total_pulses arrival_times g = None"
proof (rule ccontr)
  assume "accumulate rate ts total_pulses arrival_times g \<noteq> None"
  then obtain y where "accumulate rate ts total_pulses arrival_times g = Some y" by auto
  then have "\<not> ((\<forall>g. \<exists>g'. loop_round rate ts g = (Inr [], g'))
              \<and> int (length arrival_times) < total_pulses)"
  proof (induction rate ts total_pulses arrival_times g y
      rule: accumulate.raw_induct [rotated 1, consumes 1])
    case (1 accumulate rate ts total_pulses arrival_times g y)
    show ?case
    proof
      assume a: "(\<forall>g. \<exists>g'. loop_round rate ts g = (Inr [], g'))
                 \<and> int (length arrival_times) < total_pulses"
      then obtain g1 where r: "loop_round rate ts g = (Inr [], g1)" by blast
      with a 1(2) have "accumulate rate ts total_pulses arrival_times g1 = Some y" by simp
      from 1(1)[OF this] a show False by blast
    qed
  qed
  with stuck short show False by blast
qed

lemma sample_diverges:
  assumes "\<forall>g. \<exists>g'. loop_round rate ts g = (Inr [], g')" and "0 < total_pulses"
  shows "sample rate ts total_pulses g = None"
  using accumulate_diverges[OF assms(1), of "[]" total_pulses g] assms(2)
  by (simp add: sample_def)

lemma align_rate_zero:
  assumes "0 < n" and "set r \<subseteq> {0}"
  shows "align_rate r n = Inr (replicate n 0)"
proof -
  have z: "sum_list xs = 0" if "set xs \<subseteq> {0}" for xs :: "real list"
    using that by (induction xs) auto
  have "sum_list (take m (drop k (take j r))) = 0" for m k j
  proof (rule z)
    have "set (take m (drop k (take j r))) \<subseteq> set r"
      by (meson set_take_subset set_drop_subset subset_trans)
    with assms(2) show "set (take m (drop k (take j r))) \<subseteq> {0}" by blast
  qed
  then have "map sum_list (reshape (take j r) n m) = replicate n 0" for j m
    by (simp add: reshape_def comp_def map_replicate_const)
  with assms(1) show ?thesis by (simp add: align_rate_def Let_def)
qed

lemma align_rate_short:
  assumes "0 < n" and "length r < n"
  shows "align_rate r n = Inr (replicate n 0)"
  using assms by (simp add: align_rate_def Let_def reshape_def comp_def map_replicate_const)

subsection \<open>Rates that never produce a candidate\<close>

lemma check_types_zero: "set r \<subseteq> {0} \<Longrightarrow> check_types (NdArray r) (NdArray ts) (PyInt n) = None"
  by (auto simp: check_types_def any_negative_def list_ex_iff)

lemma check_types_nonneg:
  "\<forall>x\<in>set r. 0 \<le> x \<Longrightarrow> check_types (NdArray r) (NdArray ts) (PyInt n) = None"
  by (auto simp: check_types_def any_negative_def list_ex_iff)

lemma check_types_callable: "check_types (Callable f) (NdArray ts) (PyInt n) = None"
  by (simp add: check_types_def)

lemma stuck_zero_array:
  assumes "2 \<le> length ts" and "set r \<subseteq> {0}" and "length r = length ts"
  shows "\<forall>g. \<exists>g'. loop_round (NdArray r) ts g = (Inr [], g')"
proof -
  from assms(2,3) have "\<forall>i<length ts. r ! i = 0"
    by (metis nth_mem singletonD subsetD)
  then have "\<forall>i<length ts. 0 \<le> - (r ! i) * (ts ! 1 - ts ! 0)" by simp
  from loop_round_none_accepted[OF assms(1) avg_rate_array assms(3) this]
  show ?thesis by blast
qed


lemma bool_index_all_false:
  assumes "length msk = length xs" and "\<forall>b\<in>set msk. \<not> b"
  shows "bool_index xs msk = Inr []"
proof -
  have "filter snd (zip xs msk) = []"
    using assms(2) by (auto simp: filter_empty_conv dest: set_zip_rightD)
  with assms(1) show ?thesis by (simp add: bool_index_def)
qed

lemma broadcast2_less_all_false:
  assumes lu: "2 \<le> length u" and lp: "length p = length u \<or> length p = 1"
    and u: "\<forall>x\<in>set u. (0::real) \<le> x" and p: "\<forall>y\<in>set p. y \<le> 0"
  shows "\<exists>msk. broadcast2 (<) u p = Inr msk \<and> length msk = length u \<and> (\<forall>b\<in>set msk. \<not> b)"
proof (cases "length p = length u")
  case True
  have "\<forall>b\<in>set (map2 (<) u p). \<not> b"
  proof
    fix b assume "b \<in> set (map2 (<) u p)"
    then obtain x y where xy: "(x, y) \<in> set (zip u p)" and b: "b = (x < y)" by auto
    from xy have "x \<in> set u" and "y \<in> set p"
      by (auto dest: set_zip_leftD set_zip_rightD)
    with u p have "0 \<le> x" and "y \<le> 0" by auto
    with b show "\<not> b" by simp
  qed
  with True show ?thesis by (simp add: broadcast2_def)
next
  case False
  with lp have l1: "length p = 1" by simp
  then have "p \<noteq> []" by auto
  then have "hd p \<in> set p" by simp
  with p have h: "hd p \<le> 0" by blast
  have "\<forall>b\<in>set (map (\<lambda>x. x < hd p) u). \<not> b"
    using u h by auto
  moreover from lu l1 False have "broadcast2 (<) u p = Inr (map (\<lambda>x. x < hd p) u)"
    by (simp add: broadcast2_def)
  ultimately show ?thesis by simp
qed

lemma loop_round_never_accepts:
  assumes len: "2 \<le> length ts"
    and avg: "avg_rate rate ts (ts ! 1 - ts ! 0) = Inr a"
    and la: "length a = length ts \<or> length a = 1"
    and np: "\<forall>x\<in>set a. 0 \<le> - x * (ts ! 1 - ts ! 0)"
  shows "loop_round rate ts g = (Inr [], snd (uniform (length ts) g))"
proof -
  let ?u = "fst (uniform (length ts) g)"
  let ?d = "ts ! 1 - ts ! 0"
  have lu: "length ?u = length ts" by (rule length_uniform)
  have u: "\<forall>x\<in>set ?u. 0 \<le> x" using uniform_nonneg by blast
  have p: "\<forall>y\<in>set (avg_prob a ?d). y \<le> 0"
  proof
    fix y assume "y \<in> set (avg_prob a ?d)"
    then obtain x where x: "x \<in> set a" and y: "y = 1 - exp (- x * ?d)"
      by (auto simp: avg_prob_def)
    from np x have "0 \<le> - x * ?d" by blast
    then have "1 \<le> exp (- x * ?d)" by (simp only: one_le_exp_iff)
    with y show "y \<le> 0" by linarith
  qed
  have lp: "length (avg_prob a ?d) = length ?u \<or> length (avg_prob a ?d) = 1"
    using la lu by (simp add: avg_prob_def)
  from len lu have "2 \<le> length ?u" by simp
  from broadcast2_less_all_false[OF this lp u p]
  obtain msk where b: "broadcast2 (<) ?u (avg_prob a ?d) = Inr msk"
    and lm: "length msk = length ts" and f: "\<forall>b\<in>set msk. \<not> b"
    using lu by auto
  from bool_index_all_false[OF lm f] have bi: "bool_index ts msk = Inr []" .
  obtain us g1 where ug: "uniform (length ts) g = (us, g1)" by (cases "uniform (length ts) g")
  from len avg b bi ug show ?thesis
    by (simp add: loop_round_def get_delta_def)
qed

lemma broadcast2_zero_sum:
  assumes x: "set x \<subseteq> {0::real}" and y: "set y \<subseteq> {0}"
    and lx: "length x = n \<or> length x = 1" and ly: "length y = n \<or> length y = 1"
  shows "\<exists>s. broadcast2 (+) x y = Inr s \<and> set s \<subseteq> {0} \<and> (length s = n \<or> length s = 1)"
proof (cases "length x = length y")
  case True
  have "set (map2 (+) x y) \<subseteq> {0}"
  proof
    fix v assume "v \<in> set (map2 (+) x y)"
    then obtain a b where ab: "(a, b) \<in> set (zip x y)" and v: "v = a + b" by auto
    from ab have "a \<in> set x" and "b \<in> set y"
      by (auto dest: set_zip_leftD set_zip_rightD)
    with x y have "a = 0" and "b = 0" by blast+
    with v show "v \<in> {0}" by simp
  qed
  with True lx show ?thesis by (auto simp: broadcast2_def)
next
  case False
  show ?thesis
  proof (cases "length x = 1")
    case True
    then have "x \<noteq> []" by auto
    then have "hd x \<in> set x" by simp
    with x have "hd x = 0" by blast
    with y have "set (map ((+) (hd x)) y) \<subseteq> {0}" by auto
    with True False ly show ?thesis by (auto simp: broadcast2_def)
  next
    case nx: False
    with lx have lxn: "length x = n" by simp
    with False ly have l1: "length y = 1" by auto
    then have "y \<noteq> []" by auto
    then have "hd y \<in> set y" by simp
    with y have "hd y = 0" by blast
    with x have "set (map (\<lambda>a. a + hd y) x) \<subseteq> {0}" by auto
    with False nx l1 lxn show ?thesis by (auto simp: broadcast2_def)
  qed
qed

lemma stuck_zero_callable:
  assumes len: "2 \<le> length ts"
    and f: "\<forall>xs. set (f xs) \<subseteq> {0} \<and> (length (f xs) = length xs \<or> length (f xs) = 1)"
  shows "\<forall>g. \<exists>g'. loop_round (Callable f) ts g = (Inr [], g')"
proof -
  let ?d = "ts ! 1 - ts ! 0"
  let ?ts' = "map (\<lambda>t. t + ?d) ts"
  from f have x: "set (f ts) \<subseteq> {0}" and lx: "length (f ts) = length ts \<or> length (f ts) = 1"
    by blast+
  from f have y: "set (f ?ts') \<subseteq> {0}" by blast
  from f have "length (f ?ts') = length ?ts' \<or> length (f ?ts') = 1" by blast
  then have ly: "length (f ?ts') = length ts \<or> length (f ?ts') = 1" by simp
  from broadcast2_zero_sum[OF x y lx ly]
  obtain s where b: "broadcast2 (+) (f ts) (f ?ts') = Inr s" and s: "set s \<subseteq> {0}"
    and ls: "length s = length ts \<or> length s = 1" by blast
  let ?a = "map (\<lambda>v. v / 2) s"
  from b have avg: "avg_rate (Callable f) ts ?d = Inr ?a" by (simp add: avg_rate_def)
  from ls have la: "length ?a = length ts \<or> length ?a = 1" by simp
  from s have "\<forall>v\<in>set ?a. 0 \<le> - v * ?d" by auto
  from loop_round_never_accepts[OF len avg la this] show ?thesis by blast
qed

lemma stuck_zero_array_broadcast:
  assumes len: "2 \<le> length ts" and r: "set r \<subseteq> {0}"
    and lr: "length r = length ts \<or> length r = 1"
  shows "\<forall>g. \<exists>g'. loop_round (NdArray r) ts g = (Inr [], g')"
proof -
  from r have "\<forall>v\<in>set r. 0 \<le> - v * (ts ! 1 - ts ! 0)" by auto
  from loop_round_never_accepts[OF len avg_rate_array lr this] show ?thesis by blast
qed

text \<open>
  Claim C5. On a time axis of at least two samples and for \<open>total_pulses \<ge> 1\<close>, a rate
  that is zero everywhere makes \<^verbatim>\<open>from_inhomogeneous_poisson_process\<close> run forever: every
  acceptance probability is zero, no round adds a candidate, and the loop condition stays
  true. The rate is an all-zero array (with \<^verbatim>\<open>same_shape\<close> true, as long as the time axis
  or of length one, the shapes that broadcast), or a callable whose result is zero
  everywhere (an array as long as its argument, or a scalar).
\<close>

theorem zero_rate_never_terminates:
  assumes len: "2 \<le> length ts" and tp: "1 \<le> n"
  shows "(set r \<subseteq> {0} \<and> (same_shape \<longrightarrow> length r = length ts \<or> length r = 1) \<longrightarrow>
            from_inhomogeneous_poisson_process (NdArray r) (NdArray ts) (PyInt n) same_shape g
              = None)
       \<and> ((\<forall>xs. set (f xs) \<subseteq> {0} \<and> (length (f xs) = length xs \<or> length (f xs) = 1)) \<longrightarrow>
            from_inhomogeneous_poisson_process (Callable f) (NdArray ts) (PyInt n) same_shape g
              = None)
       \<and> (set a \<subseteq> {0} \<longrightarrow> set (avg_prob a d) \<subseteq> {0})"
proof (intro conjI impI)
  assume a: "set r \<subseteq> {0} \<and> (same_shape \<longrightarrow> length r = length ts \<or> length r = 1)"
  from tp have tp': "0 < n" by simp
  show "from_inhomogeneous_poisson_process (NdArray r) (NdArray ts) (PyInt n) same_shape g = None"
  proof (cases same_shape)
    case True
    with a have "length r = length ts \<or> length r = 1" by simp
    from sample_diverges[OF stuck_zero_array_broadcast[OF len _ this] tp'] a True show ?thesis
      by (simp add: from_inhomogeneous_poisson_process_def check_types_zero ipp_body_def)
  next
    case False
    from len have "0 < length ts" by linarith
    from align_rate_zero[OF this] a
    have al: "align_rate r (length ts) = Inr (replicate (length ts) 0)" by simp
    have "\<forall>g. \<exists>g'. loop_round (NdArray (replicate (length ts) 0)) ts g = (Inr [], g')"
      by (rule stuck_zero_array[OF len]) auto
    from sample_diverges[OF this tp'] a False al show ?thesis
      by (simp add: from_inhomogeneous_poisson_process_def check_types_zero ipp_body_def)
  qed
next
  assume "\<forall>xs. set (f xs) \<subseteq> {0} \<and> (length (f xs) = length xs \<or> length (f xs) = 1)"
  from sample_diverges[OF stuck_zero_callable[OF len this]] tp
  show "from_inhomogeneous_poisson_process (Callable f) (NdArray ts) (PyInt n) same_shape g = None"
    by (simp add: from_inhomogeneous_poisson_process_def check_types_callable ipp_body_def)
next
  assume "set a \<subseteq> {0}"
  then show "set (avg_prob a d) \<subseteq> {0}" by (auto simp: avg_prob_def)
qed

theorem zero_rate_never_terminates_witness:
  "2 \<le> length [0, 1, 2 :: real] \<and> (1::int) \<le> 1 \<and> set [0, 0, 0 :: real] \<subseteq> {0}
   \<and> from_inhomogeneous_poisson_process (NdArray [0, 0, 0]) (NdArray [0, 1, 2]) (PyInt 1) True
        \<lparr>raw = (\<lambda>i. i), pos = 0\<rparr> = None
   \<and> from_inhomogeneous_poisson_process (Callable (\<lambda>xs. map (\<lambda>_. 0) xs)) (NdArray [0, 1, 2])
        (PyInt 1) True \<lparr>raw = (\<lambda>i. i), pos = 0\<rparr> = None"
proof -
  have h: "\<forall>xs::real list. set (map (\<lambda>_. 0::real) xs) \<subseteq> {0}
             \<and> (length (map (\<lambda>_. 0::real) xs) = length xs \<or> length (map (\<lambda>_. 0::real) xs) = 1)"
    by auto
  from zero_rate_never_terminates[of "[0, 1, 2]" 1 "[0, 0, 0]" True
      "\<lparr>raw = (\<lambda>i. i), pos = 0\<rparr>" "\<lambda>xs. map (\<lambda>_. 0) xs"] h
  show ?thesis by simp
qed

text \<open>
  Claim C9. If the rate is a non-negative array shorter than the time axis (of at least
  two samples) and \<^verbatim>\<open>same_shape\<close> is false, the alignment computes blocks of size 0, the
  aligned rate is the all-zero array of the length of the time axis, and for
  \<open>total_pulses \<ge> 1\<close> the call runs forever: nothing checks that the rate is at least
  as long as the time axis.
\<close>

theorem short_rate_never_terminates:
  assumes short: "length r < length ts" and len: "2 \<le> length ts" and tp: "1 \<le> n"
    and nonneg: "\<forall>x\<in>set r. 0 \<le> x"
  shows "align_rate r (length ts) = Inr (replicate (length ts) 0)
       \<and> from_inhomogeneous_poisson_process (NdArray r) (NdArray ts) (PyInt n) False g = None"
proof -
  from len have "0 < length ts" by linarith
  from align_rate_short[OF this short]
  have al: "align_rate r (length ts) = Inr (replicate (length ts) 0)" .
  from tp have tp': "0 < n" by simp
  have "\<forall>g. \<exists>g'. loop_round (NdArray (replicate (length ts) 0)) ts g = (Inr [], g')"
    by (rule stuck_zero_array[OF len]) auto
  from sample_diverges[OF this tp'] al
  have "from_inhomogeneous_poisson_process (NdArray r) (NdArray ts) (PyInt n) False g = None"
    by (simp add: from_inhomogeneous_poisson_process_def check_types_nonneg[OF nonneg]
        ipp_body_def)
  with al show ?thesis by simp
qed

theorem short_rate_never_terminates_witness:
  "length [3 :: real] < length [0, 1, 2 :: real] \<and> 2 \<le> length [0, 1, 2 :: real] \<and> (1::int) \<le> 1
   \<and> align_rate [3] 3 = Inr [0, 0, 0]
   \<and> from_inhomogeneous_poisson_process (NdArray [3]) (NdArray [0, 1, 2]) (PyInt 1) False
        \<lparr>raw = (\<lambda>i. i), pos = 0\<rparr> = None"
  using short_rate_never_terminates[of "[3]" "[0, 1, 2]" 1 "\<lparr>raw = (\<lambda>i. i), pos = 0\<rparr>"]
  by (simp add: numeral_3_eq_3)

subsection \<open>The acceptance probability of a round\<close>



subsection \<open>Callable rates are not validated\<close>










end
